theory Spec2Isabelle
  imports Main "HOL-Library.AList" "HOL-Library.Multiset" "HOL-Library.Sublist"
begin

section \<open>Data model of the PythonTA reporters\<close>

text \<open>
  The reporters of \<^verbatim>\<open>python_ta/reporters/core.py\<close> and
  \<^verbatim>\<open>python_ta/reporters/plain_reporter.py\<close> collect pylint messages per file,
  attach a syntax node and a rendered source snippet to the message added last, split the
  messages of a file into an error and a style bucket, and print a plain text report.

  A Python \<^verbatim>\<open>str\<close> is modelled as a \<^typ>\<open>string\<close>, one \<^typ>\<open>char\<close> for each
  character of the Python string; a Python \<^verbatim>\<open>int\<close> is an \<^typ>\<open>int\<close>. An exception that
  a function of the source can raise is a value of \<open>py_error\<close>.
\<close>

datatype py_error =
  AttributeError | TypeError | IndexError | ValueError | RuntimeError | OSError
| UnicodeDecodeError

text \<open>
  Modelled from the spec: the class \<^verbatim>\<open>pylint.message.Message\<close> is declared outside the
  sources at hand. The record has the attributes the spec lists for a diagnostic (rule
  identifier, symbolic name, message text, file path, line and column, optional end line and
  end column), under the names the source reads them by. A record can be extended, so
  whatever else the library stores travels in the record's extension.
\<close>

record message =
  msg_id :: string
  symbol :: string
  msg :: string
  path :: string
  line :: int
  column :: int
  end_line :: "int option"
  end_column :: "int option"

text \<open>A syntax node is an opaque handle into the parsed tree; the reporters never look inside.\<close>

type_synonym node = nat

text \<open>
  The message list of a file holds pylint messages and \<^verbatim>\<open>NewMessage\<close> wrappers.
  \<^verbatim>\<open>NewMessage.__init__\<close> stores whatever object it is given, so a wrapper can wrap a
  wrapper. The snippet is declared \<^verbatim>\<open>Optional[str]\<close>.
\<close>

datatype msg_obj =
  Message message
| NewMessage msg_obj node "string option"

text \<open>
  \<^verbatim>\<open>NewMessage.__getattr__\<close> is called for an attribute the wrapper does not have itself
  (anything but \<^verbatim>\<open>message\<close>, \<^verbatim>\<open>node\<close> and \<^verbatim>\<open>snippet\<close>) and forwards the lookup to the
  wrapped object. \<open>getattr_message\<close> is the pylint message such a lookup ends at.
\<close>

fun getattr_message :: "msg_obj \<Rightarrow> message" where
  "getattr_message (Message m) = m"
| "getattr_message (NewMessage w n s) = getattr_message w"

text \<open>
  The attributes \<^verbatim>\<open>node\<close> and \<^verbatim>\<open>snippet\<close> belong to the wrapper. On a pylint message the
  lookup fails, and on a wrapper of a pylint message \<^verbatim>\<open>__getattr__\<close> is not reached.
\<close>

fun getattr_snippet :: "msg_obj \<Rightarrow> py_error + string option" where
  "getattr_snippet (Message m) = Inl AttributeError"
| "getattr_snippet (NewMessage w n s) = Inr s"

fun getattr_node :: "msg_obj \<Rightarrow> py_error + node" where
  "getattr_node (Message m) = Inl AttributeError"
| "getattr_node (NewMessage w n s) = Inr n"

record message_definition =
  msgid :: string

definition NO_SNIPPET :: "string set" where
  "NO_SNIPPET = {
     ''invalid-name'',
     ''unknown-option-value'',
     ''module-name-violation'',
     ''config-parse-error'',
     ''useless-option-value'',
     ''unrecognized-option''}"

text \<open>
  Modelled from the spec: \<^verbatim>\<open>LineType\<close> is declared in \<^verbatim>\<open>node_printers.py\<close>, which is not
  among the sources. The spec names the roles ERROR, CONTEXT, DOCSTRING and OTHER; the
  source's chains of comparisons end in a branch for any further member, which
  \<open>UNLISTED\<close> stands for.
\<close>

datatype LineType = ERROR | CONTEXT | OTHER | DOCSTRING | UNLISTED

text \<open>
  Modelled from the spec: the column slice of a snippet line has a start and an end bound,
  each of which may be absent (\<^verbatim>\<open>slice(start, stop)\<close>, no step).
\<close>

datatype slice = Slice (start: "int option") (stop: "int option")

subsection \<open>Python's string operations\<close>

text \<open>
  Slicing a sequence of length \<open>n\<close>: a negative bound counts from the end, and every bound
  is clamped into \<open>0..n\<close>; an absent start is \<open>0\<close> and an absent stop is \<open>n\<close>. The slice is
  empty when the stop is not beyond the start.
\<close>

definition slice_index :: "nat \<Rightarrow> int \<Rightarrow> nat" where
  "slice_index n i = (if i < 0 then nat (max 0 (i + int n)) else min n (nat i))"

definition getslice :: "'a list \<Rightarrow> int option \<Rightarrow> int option \<Rightarrow> 'a list" where
  "getslice xs a b =
     (let n = length xs;
          lo = (case a of None \<Rightarrow> 0 | Some i \<Rightarrow> slice_index n i);
          hi = (case b of None \<Rightarrow> n | Some j \<Rightarrow> slice_index n j)
      in take (hi - lo) (drop lo xs))"

text \<open>\<^verbatim>\<open>str(n)\<close> for an integer: its decimal digits, after a minus sign when negative.\<close>

definition digit :: "nat \<Rightarrow> char" where
  "digit d = ''0123456789'' ! d"

function str_nat :: "nat \<Rightarrow> string" where
  "str_nat n = (if n < 10 then [digit n] else str_nat (n div 10) @ [digit (n mod 10)])"
  by pat_completeness auto
termination
  by (relation "measure id") auto

declare str_nat.simps [simp del]

definition str_int :: "int \<Rightarrow> string" where
  "str_int i = (if i < 0 then CHR ''-'' # str_nat (nat (- i)) else str_nat (nat i))"

text \<open>\<^verbatim>\<open>"{:>3}".format(s)\<close>: pad on the left with spaces to width three.\<close>

definition rjust3 :: "string \<Rightarrow> string" where
  "rjust3 s = replicate (3 - length s) CHR '' '' @ s"

text \<open>\<^verbatim>\<open>s.lstrip(" ")\<close> and \<^verbatim>\<open>s.rstrip("\r\n")\<close>.\<close>

definition lstrip_space :: "string \<Rightarrow> string" where
  "lstrip_space s = dropWhile (\<lambda>c. c = CHR '' '') s"

definition rstrip_crlf :: "string \<Rightarrow> string" where
  "rstrip_crlf s = rev (dropWhile (\<lambda>c. c = CHR 0x0D \<or> c = CHR 0x0A) (rev s))"

text \<open>\<^verbatim>\<open>s.split("\n")[0]\<close>: the text before the first line break.\<close>

definition first_line :: "string \<Rightarrow> string" where
  "first_line s = takeWhile (\<lambda>c. c \<noteq> CHR 0x0A) s"

section \<open>The reporter\<close>

text \<open>
  The configured maximum of occurrences shown for one rule: an integer, or the float
  infinity the source compares it with.
\<close>

datatype max_count = Count int | Infinity

text \<open>
  The state of a reporter. \<open>messages\<close> is the \<^verbatim>\<open>defaultdict(list)\<close> from file name to
  message list, \<open>out\<close> the text written to the output stream so far, and
  \<open>pyta_number_of_messages\<close> the option of that name in the linter's configuration.
\<close>

record reporter =
  messages :: "string \<rightharpoonup> msg_obj list"
  source_lines :: "string list"
  "module_name" :: string
  current_file :: string
  out :: string
  pyta_number_of_messages :: max_count

text \<open>
  Reading \<^verbatim>\<open>d[k]\<close> from a \<^verbatim>\<open>defaultdict(list)\<close> stores an empty list under a missing key
  before returning it.
\<close>

definition getitem :: "(string \<rightharpoonup> 'a list) \<Rightarrow> string \<Rightarrow> 'a list \<times> (string \<rightharpoonup> 'a list)" where
  "getitem d k = (case d k of Some v \<Rightarrow> (v, d) | None \<Rightarrow> ([], d(k \<mapsto> [])))"

text \<open>What a file's list reads as, stored or not.\<close>

definition messages_of :: "reporter \<Rightarrow> string \<Rightarrow> msg_obj list" where
  "messages_of self f = fst (getitem (messages self) f)"

definition handle_message :: "reporter \<Rightarrow> msg_obj \<Rightarrow> reporter" where
  "handle_message self m =
     (let (curr_messages, d) = getitem (messages self) (current_file self)
      in self\<lparr>messages := d(current_file self \<mapsto> curr_messages @ [m])\<rparr>)"

subsection \<open>Rendering a snippet\<close>

text \<open>
  \<^verbatim>\<open>_colourify\<close> is a class method that reporters override; the rendering functions take
  it as the parameter \<open>colour\<close>. The base reporter's method, which the plain reporter
  inherits, returns the text itself.
\<close>

type_synonym colourer = "string \<Rightarrow> string \<Rightarrow> string"

definition colourify :: colourer where
  "colourify colour_class text = text"

definition PRE_LINE_NUM_SPACES :: nat where "PRE_LINE_NUM_SPACES = 2"
definition NUM_LENGTH_SPACES :: nat where "NUM_LENGTH_SPACES = 3"
definition AFTER_NUM_SPACES :: nat where "AFTER_NUM_SPACES = 2"
definition SPACE :: string where "SPACE = '' ''"
definition BREAK :: string where "BREAK = [CHR 0x0A]"

text \<open>\<^verbatim>\<open>n * s\<close> for a string \<open>s\<close>.\<close>

definition times :: "nat \<Rightarrow> string \<Rightarrow> string" where
  "times n s = concat (replicate n s)"

definition add_line_number :: "colourer \<Rightarrow> int option \<Rightarrow> LineType \<Rightarrow> string" where
  "add_line_number colour lineno linetype =
     (let pre_spaces = times PRE_LINE_NUM_SPACES SPACE;
          spaces = times AFTER_NUM_SPACES SPACE;
          number = (case lineno of
                      Some l \<Rightarrow> rjust3 (str_int l)
                    | None \<Rightarrow> times NUM_LENGTH_SPACES SPACE)
      in if linetype = ERROR then pre_spaces @ colour ''gbold-line'' number @ spaces
         else if linetype = CONTEXT then pre_spaces @ colour ''grey-line'' number @ spaces
         else if linetype = OTHER then pre_spaces @ colour ''grey-line'' number @ spaces
         else if linetype = DOCSTRING then pre_spaces @ colour ''black-line'' number @ spaces
         else pre_spaces @ number @ spaces)"

text \<open>
  \<^verbatim>\<open>x or y\<close> on an optional integer: \<open>y\<close> when \<open>x\<close> is \<^verbatim>\<open>None\<close> and also when \<open>x\<close> is \<open>0\<close>.
\<close>

definition or_else :: "int option \<Rightarrow> int \<Rightarrow> int" where
  "or_else x y = (case x of None \<Rightarrow> y | Some v \<Rightarrow> if v = 0 then y else v)"

text \<open>
  \<^verbatim>\<open>PythonTaReporter._add_line\<close>. A string counts as true when it is not empty, and
  \<^verbatim>\<open>text[:a]\<close>, \<^verbatim>\<open>text[b:]\<close> and \<^verbatim>\<open>text[slice_]\<close> are slices in Python's sense.
\<close>

definition add_line :: "colourer \<Rightarrow> int option \<Rightarrow> LineType \<Rightarrow> slice \<Rightarrow> string \<Rightarrow> string" where
  "add_line colour lineno linetype slice' text =
     (let snippet = add_line_number colour lineno linetype;
          snippet =
            (if linetype = ERROR then
               (let start_col = or_else (start slice') 0;
                    end_col = or_else (stop slice') (int (length text));
                    snippet =
                      (if getslice text None (Some start_col) \<noteq> []
                       then snippet @ colour ''black'' (getslice text None (Some start_col))
                       else snippet);
                    snippet =
                      snippet @ colour ''highlight'' (getslice text (start slice') (stop slice'))
                in if getslice text (Some end_col) None \<noteq> []
                   then snippet @ colour ''black'' (getslice text (Some end_col) None)
                   else snippet)
             else if linetype = CONTEXT then snippet @ colour ''grey'' text
             else if linetype = OTHER then snippet @ text
             else if linetype = DOCSTRING then
               (let space_c = length text - length (lstrip_space text);
                    snippet = snippet @ times space_c SPACE
                in snippet @ colour ''highlight'' (lstrip_space text))
             else snippet)
      in snippet @ BREAK)"

text \<open>
  The slices above are the column slices of the snippet planner. A slice object of Python
  has a third field, the step, and \<^verbatim>\<open>text[slice_]\<close> raises \<^verbatim>\<open>ValueError\<close> when the step is
  \<open>0\<close>. With a step \<open>k\<close> that is not \<open>0\<close> the bounds are clamped into \<open>0..n\<close> for a
  positive step and into \<open>-1..n-1\<close> for a negative one, a negative bound counting from the
  end; an absent bound is the first or the last position in the direction of the step;
  the slice takes every \<open>k\<close>-th element from the start for as long as the stop is not
  reached.
\<close>

datatype slice_object = SliceObject (bounds: slice) (slice_step: "int option")

definition extended_slice :: "'a list \<Rightarrow> int option \<Rightarrow> int option \<Rightarrow> int \<Rightarrow> 'a list" where
  "extended_slice xs a b k =
     (let n = int (length xs);
          lower = (if k < 0 then - 1 else 0);
          upper = (if k < 0 then n - 1 else n);
          clamp = (\<lambda>i. if i < 0 then max (i + n) lower else min i upper);
          s = (case a of None \<Rightarrow> (if k < 0 then upper else lower) | Some i \<Rightarrow> clamp i);
          e = (case b of None \<Rightarrow> (if k < 0 then lower else upper) | Some j \<Rightarrow> clamp j);
          count = (if 0 < k then (if s < e then (e - s + k - 1) div k else 0)
                   else (if e < s then (s - e + (- k) - 1) div (- k) else 0))
      in map (\<lambda>j. xs ! nat (s + int j * k)) [0..<nat count])"

definition getitem_slice :: "'a list \<Rightarrow> slice_object \<Rightarrow> py_error + 'a list" where
  "getitem_slice xs so =
     (case slice_step so of
        None \<Rightarrow> Inr (getslice xs (start (bounds so)) (stop (bounds so)))
      | Some k \<Rightarrow>
          if k = 0 then Inl ValueError
          else Inr (extended_slice xs (start (bounds so)) (stop (bounds so)) k))"

text \<open>
  \<^verbatim>\<open>PythonTaReporter._add_line\<close> on any slice object, with the error it can raise. Only
  \<^verbatim>\<open>text[slice_]\<close> can: \<^verbatim>\<open>text[:start_col]\<close> and \<^verbatim>\<open>text[end_col:]\<close> have no step.
\<close>

definition add_line_py ::
  "colourer \<Rightarrow> int option \<Rightarrow> LineType \<Rightarrow> slice_object \<Rightarrow> string \<Rightarrow> py_error + string" where
  "add_line_py colour lineno linetype slice' text =
     (let snippet = add_line_number colour lineno linetype
      in if linetype = ERROR then
           (let start_col = or_else (start (bounds slice')) 0;
                end_col = or_else (stop (bounds slice')) (int (length text));
                snippet =
                  (if getslice text None (Some start_col) \<noteq> []
                   then snippet @ colour ''black'' (getslice text None (Some start_col))
                   else snippet)
            in case getitem_slice text slice' of
                 Inl e \<Rightarrow> Inl e
               | Inr span \<Rightarrow>
                   (let snippet = snippet @ colour ''highlight'' span;
                        snippet =
                          (if getslice text (Some end_col) None \<noteq> []
                           then snippet @ colour ''black'' (getslice text (Some end_col) None)
                           else snippet)
                    in Inr (snippet @ BREAK)))
         else if linetype = CONTEXT then Inr (snippet @ colour ''grey'' text @ BREAK)
         else if linetype = OTHER then Inr (snippet @ text @ BREAK)
         else if linetype = DOCSTRING then
           (let space_c = length text - length (lstrip_space text);
                snippet = snippet @ times space_c SPACE;
                snippet = snippet @ colour ''highlight'' (lstrip_space text)
            in Inr (snippet @ BREAK))
         else Inr (snippet @ BREAK))"

text \<open>
  \<^verbatim>\<open>render_message\<close> comes from \<^verbatim>\<open>node_printers.py\<close>, and \<^verbatim>\<open>_add_line\<close> is overridden by
  reporters that inherit from the base class, so \<^verbatim>\<open>_build_snippet\<close> takes both as
  parameters.
\<close>

type_synonym snippet_line = "int option \<times> slice \<times> LineType \<times> string"
type_synonym renderer = "msg_obj \<Rightarrow> node \<Rightarrow> string list \<Rightarrow> snippet_line list"
type_synonym line_adder = "int option \<Rightarrow> LineType \<Rightarrow> slice \<Rightarrow> string \<Rightarrow> string"

fun snippet_loop :: "line_adder \<Rightarrow> snippet_line list \<Rightarrow> string \<Rightarrow> string" where
  "snippet_loop adder [] code_snippet = code_snippet"
| "snippet_loop adder ((lineno, slice', line_type, text) # rest) code_snippet =
     snippet_loop adder rest (code_snippet @ adder lineno line_type slice' text)"

definition build_snippet ::
  "line_adder \<Rightarrow> renderer \<Rightarrow> reporter \<Rightarrow> msg_obj \<Rightarrow> node \<Rightarrow> string" where
  "build_snippet adder render_message self m n =
     snippet_loop adder (render_message m n (source_lines self)) []"

subsection \<open>Attaching a node to the message added last\<close>

definition handle_node ::
  "line_adder \<Rightarrow> renderer \<Rightarrow> reporter \<Rightarrow> message_definition \<Rightarrow> node \<Rightarrow> reporter" where
  "handle_node adder render_message self msg_definition n =
     (let (curr_messages, d) = getitem (messages self) (current_file self)
      in if length curr_messages \<ge> 1
            \<and> msg_id (getattr_message (last curr_messages)) = msgid msg_definition
         then
           (let m = last curr_messages;
                snippet =
                  (if symbol (getattr_message m) \<in> NO_SNIPPET
                      \<or> prefix ''Invalid module'' (msg (getattr_message m))
                   then []
                   else build_snippet adder render_message self m n)
            in self\<lparr>messages :=
                 d(current_file self \<mapsto> butlast curr_messages @ [NewMessage m n (Some snippet)])\<rparr>)
         else self\<lparr>messages := d\<rparr>)"

subsection \<open>Grouping the messages of a file\<close>

definition ERROR_CHECKS :: "string set" where
  "ERROR_CHECKS = {
     ''used-before-assignment'',
     ''undefined-variable'',
     ''undefined-loop-variable'',
     ''not-in-loop'',
     ''return-outside-function'',
     ''duplicate-key'',
     ''unreachable'',
     ''pointless-statement'',
     ''pointless-string-statement'',
     ''no-member'',
     ''not-callable'',
     ''assignment-from-no-return'',
     ''assignment-from-none'',
     ''no-value-for-parameter'',
     ''too-many-function-args'',
     ''invalid-sequence-index'',
     ''invalid-slice-index'',
     ''invalid-slice-step'',
     ''invalid-unary-operand-type'',
     ''unsupported-binary-operation'',
     ''unsupported-membership-test'',
     ''unsubscriptable-object'',
     ''unbalanced-tuple-unpacking'',
     ''unbalanced-dict-unpacking'',
     ''unpacking-non-sequence'',
     ''function-redefined'',
     ''duplicate-argument-name'',
     ''import-error'',
     ''no-name-in-module'',
     ''non-parent-init-called'',
     ''access-member-before-definition'',
     ''method-hidden'',
     ''unexpected-special-method-signature'',
     ''inherit-non-class'',
     ''duplicate-except'',
     ''bad-except-order'',
     ''raising-bad-type'',
     ''raising-non-exception'',
     ''catching-non-exception'',
     ''bad-indentation'',
     ''E0001'',
     ''unexpected-keyword-arg'',
     ''not-an-iterable'',
     ''nonexistent-operator'',
     ''invalid-length-returned'',
     ''abstract-method'',
     ''self-cls-assignment'',
     ''dict-iter-missing-items'',
     ''super-without-brackets'',
     ''modified-iterating-list'',
     ''modified-iterating-dict'',
     ''modified-iterating-set'',
     ''missing-return-statement'',
     ''invalid-range-index'',
     ''one-iteration'',
     ''possibly-undefined'',
     ''incompatible-argument-type'',
     ''incompatible-assignment'',
     ''list-item-type-mismatch'',
     ''unsupported-operand-types'',
     ''union-attr-error'',
     ''dict-item-type-mismatch'',
     ''forbidden-import'',
     ''forbidden-python-syntax'',
     ''forbidden-top-level-code''}"

text \<open>
  The two results are dictionaries that are iterated over when the report is printed, so
  they are association lists with the keys in the order of their first insertion.
  \<open>dd_append d k v\<close> is \<^verbatim>\<open>d[k].append(v)\<close> on a \<^verbatim>\<open>defaultdict(list)\<close>.
\<close>

type_synonym bucket = "(string \<times> msg_obj list) list"

fun dd_append :: "bucket \<Rightarrow> string \<Rightarrow> msg_obj \<Rightarrow> bucket" where
  "dd_append [] k v = [(k, [v])]"
| "dd_append ((k', vs) # d) k v =
     (if k' = k then (k', vs @ [v]) # d else (k', vs) # dd_append d k v)"

fun group_loop :: "msg_obj list \<Rightarrow> bucket \<Rightarrow> bucket \<Rightarrow> bucket \<times> bucket" where
  "group_loop [] error_msgs_by_type style_msgs_by_type =
     (error_msgs_by_type, style_msgs_by_type)"
| "group_loop (m # rest) error_msgs_by_type style_msgs_by_type =
     (if msg_id (getattr_message m) \<in> ERROR_CHECKS \<or> symbol (getattr_message m) \<in> ERROR_CHECKS
      then group_loop rest
             (dd_append error_msgs_by_type (msg_id (getattr_message m)) m) style_msgs_by_type
      else group_loop rest
             error_msgs_by_type (dd_append style_msgs_by_type (msg_id (getattr_message m)) m))"

definition group_messages :: "msg_obj list \<Rightarrow> bucket \<times> bucket" where
  "group_messages msgs = group_loop msgs [] []"

text \<open>The test that sends a message to the error bucket, and a dictionary lookup.\<close>

definition is_error_check :: "msg_obj \<Rightarrow> bool" where
  "is_error_check m \<longleftrightarrow>
     msg_id (getattr_message m) \<in> ERROR_CHECKS \<or> symbol (getattr_message m) \<in> ERROR_CHECKS"

definition group_of :: "bucket \<Rightarrow> string \<Rightarrow> msg_obj list" where
  "group_of d k = (case map_of d k of None \<Rightarrow> [] | Some vs \<Rightarrow> vs)"

subsection \<open>The plain text report\<close>

definition code_err_title :: string where
  "code_err_title = ''=== Code errors/forbidden usage (fix: high priority) ===''"

definition style_err_title :: string where
  "style_err_title = ''=== Style/convention errors (fix: before submission) ===''"

definition no_err_message :: string where
  "no_err_message = ''No problems detected, good job!'' @ times 2 BREAK"

text \<open>
  The comparisons of \<^verbatim>\<open>max_messages\<close> with an integer, and \<^verbatim>\<open>"{}".format(max_messages)\<close>.
  Infinity is not below any length.
\<close>

fun count_less :: "max_count \<Rightarrow> int \<Rightarrow> bool" where
  "count_less (Count c) n \<longleftrightarrow> c < n"
| "count_less Infinity n \<longleftrightarrow> False"

fun str_count :: "max_count \<Rightarrow> string" where
  "str_count (Count c) = str_int c"
| "str_count Infinity = ''inf''"

text \<open>
  The inner loop of \<^verbatim>\<open>_colour_messages_by_type\<close> over \<^verbatim>\<open>enumerate(messages[msg_id])\<close>; \<open>i\<close> is
  the index reached and \<open>result\<close> the text so far. Reading \<^verbatim>\<open>msg.snippet\<close> raises on a message
  that was never wrapped, and appending \<^verbatim>\<open>None\<close> to a string raises.
\<close>

fun occurrences_loop :: "max_count \<Rightarrow> nat \<Rightarrow> msg_obj list \<Rightarrow> string \<Rightarrow> py_error + string" where
  "occurrences_loop max_messages i [] result = Inr result"
| "occurrences_loop max_messages i (m # rest) result =
     (if max_messages \<noteq> Count 0 \<and> Count (int i) = max_messages then Inr result
      else
        (let msg_truncated = first_line (msg (getattr_message m));
             result = result @ times 2 SPACE;
             result = result
               @ colourify ''bold''
                   (''[Line '' @ str_int (line (getattr_message m)) @ ''] '' @ msg_truncated)
               @ BREAK
         in case getattr_snippet m of
              Inl e \<Rightarrow> Inl e
            | Inr None \<Rightarrow> Inl TypeError
            | Inr (Some snippet) \<Rightarrow>
                occurrences_loop max_messages (Suc i) rest (result @ snippet @ BREAK)))"

text \<open>
  The outer loop over the rules of a bucket. A dictionary holds each key once, so walking
  the pairs is walking the keys and looking each one up. \<^verbatim>\<open>messages[msg_id][0]\<close> raises on
  an empty list.
\<close>

fun groups_loop :: "max_count \<Rightarrow> bucket \<Rightarrow> string \<Rightarrow> py_error + string" where
  "groups_loop max_messages [] result = Inr result"
| "groups_loop max_messages ((k, ms) # rest) result =
     (case ms of
        [] \<Rightarrow> Inl IndexError
      | m0 # _ \<Rightarrow>
          (let result = result @ colourify ''bold'' k;
               result = result
                 @ colourify ''bold'' ('' ('' @ symbol (getattr_message m0) @ '')  '');
               result = result
                 @ ''Number of occurrences: '' @ str_int (int (length ms)) @ ''.'';
               result =
                 (if max_messages \<noteq> Count 0 \<and> max_messages \<noteq> Infinity
                     \<and> count_less max_messages (int (length ms))
                  then result @ '' (First '' @ str_count max_messages @ '' shown).''
                  else result);
               result = result @ BREAK
           in case occurrences_loop max_messages 0 ms result of
                Inl e \<Rightarrow> Inl e
              | Inr result \<Rightarrow> groups_loop max_messages rest result))"

definition colour_messages_by_type :: "reporter \<Rightarrow> bucket \<Rightarrow> py_error + string" where
  "colour_messages_by_type self msgs = groups_loop (pyta_number_of_messages self) msgs []"

text \<open>
  \<^verbatim>\<open>writeln\<close> of pylint's base reporter prints the string and a line break to the output
  stream. \<^verbatim>\<open>_generate_report_date_time\<close> reads the clock; its result is the parameter
  \<open>now\<close>. A call returns the exception raised, if any, and the state it leaves.
\<close>

definition writeln :: "reporter \<Rightarrow> string \<Rightarrow> reporter" where
  "writeln self s = self\<lparr>out := out self @ s @ BREAK\<rparr>"

definition print_messages :: "string \<Rightarrow> reporter \<Rightarrow> string \<Rightarrow> py_error option \<times> reporter" where
  "print_messages now self level =
     (let (curr_messages, d) = getitem (messages self) (current_file self);
          self = self\<lparr>messages := d\<rparr>;
          (error_msgs, style_msgs) = group_messages curr_messages;
          result = ''PyTA Report for: '' @ colourify ''bold'' (current_file self) @ BREAK;
          result = result @ now @ BREAK;
          result = result @ colourify ''code-heading'' (code_err_title @ BREAK)
      in case colour_messages_by_type self error_msgs of
           Inl e \<Rightarrow> (Some e, self)
         | Inr messages_result \<Rightarrow>
             (let result =
                    (if messages_result \<noteq> [] then result @ messages_result
                     else result @ no_err_message)
              in if level = ''all'' then
                   (let result = result @ colourify ''style-heading'' (style_err_title @ BREAK)
                    in case colour_messages_by_type self style_msgs of
                         Inl e \<Rightarrow> (Some e, self)
                       | Inr messages_result \<Rightarrow>
                           (if messages_result \<noteq> []
                            then (None, writeln self (result @ messages_result))
                            else (None, writeln self (result @ no_err_message))))
                 else (None, writeln self result)))"

subsection \<open>Switching to another file\<close>

text \<open>
  What \<^verbatim>\<open>on_set_current_module\<close> asks of the file system. \<open>expand\<close> is
  \<^verbatim>\<open>str(Path(os.path.expandvars(module)).expanduser())\<close>, which raises when the home
  directory of a \<^verbatim>\<open>~user\<close> cannot be found; \<open>path_exists\<close> is \<^verbatim>\<open>Path.exists\<close>, which raises
  on a path the system refuses, such as an over-long name; \<open>readlines\<close> opens a file as
  UTF-8 and reads its lines, or raises.
\<close>

record filesystem =
  expand :: "string \<Rightarrow> py_error + string"
  path_exists :: "string \<Rightarrow> py_error + bool"
  readlines :: "string \<Rightarrow> py_error + string list"

text \<open>
  In \<^verbatim>\<open>possible_config_path.exists() and filepath is None\<close> the call of \<^verbatim>\<open>exists\<close> is the
  left operand, so it is made whatever the path given.
\<close>

definition on_set_current_module ::
  "filesystem \<Rightarrow> reporter \<Rightarrow> string \<Rightarrow> string option \<Rightarrow> py_error option \<times> reporter" where
  "on_set_current_module fs self module filepath =
     (case expand fs module of
        Inl e \<Rightarrow> (Some e, self)
      | Inr possible_config_path \<Rightarrow>
          (case path_exists fs possible_config_path of
             Inl e \<Rightarrow> (Some e, self)
           | Inr found \<Rightarrow>
               (let filepath =
                      (if found \<and> filepath = None then Some possible_config_path else filepath)
                in case filepath of
                     None \<Rightarrow> (None, self)
                   | Some fp \<Rightarrow>
                       (let self = self\<lparr>module_name := module\<rparr>;
                            self = self\<lparr>current_file := fp\<rparr>;
                            self =
                              (if current_file self \<notin> dom (messages self)
                               then self\<lparr>messages := (messages self)(current_file self \<mapsto> [])\<rparr>
                               else self)
                        in case readlines fs fp of
                             Inl e \<Rightarrow> (Some e, self)
                           | Inr lines \<Rightarrow>
                               (None, self\<lparr>source_lines := map rstrip_crlf lines\<rparr>)))))"

subsection \<open>The dictionary of a wrapped message\<close>

text \<open>
  The values \<^verbatim>\<open>to_dict\<close> stores, and \<^verbatim>\<open>vars\<close> of an object: the fields of a pylint
  message, or the three attributes of a wrapper.
\<close>

datatype pyval = VStr string | VInt int | VNone | VNode node | VObj msg_obj

definition opt_int :: "int option \<Rightarrow> pyval" where
  "opt_int x = (case x of None \<Rightarrow> VNone | Some i \<Rightarrow> VInt i)"

definition opt_str :: "string option \<Rightarrow> pyval" where
  "opt_str x = (case x of None \<Rightarrow> VNone | Some s \<Rightarrow> VStr s)"

fun vars :: "msg_obj \<Rightarrow> (string \<times> pyval) list" where
  "vars (Message m) =
     [(''msg_id'', VStr (msg_id m)), (''symbol'', VStr (symbol m)), (''msg'', VStr (msg m)),
      (''path'', VStr (path m)), (''line'', VInt (line m)), (''column'', VInt (column m)),
      (''end_line'', opt_int (end_line m)), (''end_column'', opt_int (end_column m))]"
| "vars (NewMessage w n s) = [(''message'', VObj w), (''node'', VNode n), (''snippet'', opt_str s)]"

text \<open>
  A dictionary display keeps a key at its first position and the value given last.
  Only the wrapper has the method.
\<close>

fun to_dict :: "msg_obj \<Rightarrow> py_error + (string \<times> pyval) list" where
  "to_dict (Message m) = Inl AttributeError"
| "to_dict (NewMessage w n s) =
     Inr (AList.update ''column_end'' (opt_int (end_column (getattr_message w)))
           (AList.update ''line_end'' (opt_int (end_line (getattr_message w)))
             (AList.update ''snippet'' (opt_str s) (vars w))))"

subsection \<open>Sample data\<close>

definition msg_undefined :: message where
  "msg_undefined = \<lparr>msg_id = ''E0602'', symbol = ''undefined-variable'',
     msg = ''Undefined variable x'', path = ''a.py'', line = 3, column = 4,
     end_line = Some 3, end_column = Some 12\<rparr>"

definition msg_trailing :: message where
  "msg_trailing = \<lparr>msg_id = ''C0303'', symbol = ''trailing-whitespace'',
     msg = ''Trailing whitespace'', path = ''a.py'', line = 7, column = 10,
     end_line = None, end_column = None\<rparr>"

definition msg_invalid_name :: message where
  "msg_invalid_name = \<lparr>msg_id = ''C0103'', symbol = ''invalid-name'',
     msg = ''Invalid name'', path = ''a.py'', line = 1, column = 0,
     end_line = None, end_column = None\<rparr>"

text \<open>A renderer that yields one line, the number of the node it is given.\<close>

definition node_line :: renderer where
  "node_line m n src = [(None, Slice None None, OTHER, str_nat n)]"

text \<open>The state \<^verbatim>\<open>__init__\<close> leaves, for a configured maximum.\<close>

definition init :: "max_count \<Rightarrow> reporter" where
  "init mx = \<lparr>messages = Map.empty, source_lines = [], module_name = [], current_file = [],
     out = [], pyta_number_of_messages = mx\<rparr>"

definition msg_invalid_module :: message where
  "msg_invalid_module = \<lparr>msg_id = ''F0010'', symbol = ''parse-error'',
     msg = ''Invalid module name given'', path = ''a.py'', line = 1, column = 0,
     end_line = None, end_column = None\<rparr>"

text \<open>
  The snippet \<^verbatim>\<open>handle_node\<close> attaches to a message it wraps.
\<close>

definition attached_snippet :: "line_adder \<Rightarrow> renderer \<Rightarrow> reporter \<Rightarrow> msg_obj \<Rightarrow> node \<Rightarrow> string" where
  "attached_snippet adder render self m n =
     (if symbol (getattr_message m) \<in> NO_SNIPPET
         \<or> prefix ''Invalid module'' (msg (getattr_message m))
      then [] else build_snippet adder render self m n)"

definition d_undefined :: message_definition where "d_undefined = \<lparr>msgid = ''E0602''\<rparr>"

definition one_undefined :: reporter where
  "one_undefined = handle_message (init (Count 0)) (Message msg_undefined)"

text \<open>
  What every bucket that \<^verbatim>\<open>group_messages\<close> builds satisfies, for the test \<open>P\<close> of the
  bucket: each key occurs once, no list is empty, and a list holds only messages that pass
  the test and carry the key as their rule identifier.
\<close>

definition bucket_ok :: "(msg_obj \<Rightarrow> bool) \<Rightarrow> bucket \<Rightarrow> bool" where
  "bucket_ok P d \<longleftrightarrow> distinct (map fst d)
     \<and> (\<forall>(k, vs) \<in> set d. vs \<noteq> [] \<and> (\<forall>m \<in> set vs. P m \<and> msg_id (getattr_message m) = k))"

definition three_messages :: "msg_obj list" where
  "three_messages =
     [Message msg_undefined, Message msg_trailing, Message (msg_undefined\<lparr>line := 9\<rparr>)]"

text \<open>
  For stating what is printed: whether reading \<^verbatim>\<open>msg.snippet\<close> gives a string (the message
  is a wrapper whose snippet is not \<^verbatim>\<open>None\<close>, as the parameter type
  \<^verbatim>\<open>dict[str, list[NewMessage]]\<close> of \<^verbatim>\<open>_colour_messages_by_type\<close> asks), the text that
  rendering one occurrence appends, and the head line of a rule group up to the count.
\<close>

definition has_snippet :: "msg_obj \<Rightarrow> bool" where
  "has_snippet m = (case getattr_snippet m of Inr (Some s) \<Rightarrow> True | _ \<Rightarrow> False)"

definition occurrence_text :: "msg_obj \<Rightarrow> string" where
  "occurrence_text m =
     times 2 SPACE
     @ colourify ''bold''
         (''[Line '' @ str_int (line (getattr_message m)) @ ''] ''
          @ first_line (msg (getattr_message m)))
     @ BREAK
     @ (case getattr_snippet m of Inr (Some s) \<Rightarrow> s | _ \<Rightarrow> [])
     @ BREAK"

definition group_title :: "string \<Rightarrow> msg_obj list \<Rightarrow> string" where
  "group_title k ms =
     colourify ''bold'' k
     @ colourify ''bold'' ('' ('' @ symbol (getattr_message (hd ms)) @ '')  '')
     @ ''Number of occurrences: '' @ str_int (int (length ms)) @ ''.''"


text \<open>A state with an error and a style message for the current file, both wrapped.\<close>

definition two_found :: reporter where
  "two_found = \<lparr>messages =
       [''a.py'' \<mapsto> [NewMessage (Message msg_undefined) 1 (Some ''S1''),
                     NewMessage (Message msg_trailing) 2 (Some ''S2'')]],
     source_lines = [], module_name = ''a'', current_file = ''a.py'', out = [],
     pyta_number_of_messages = Infinity\<rparr>"

text \<open>
  Two file systems: one in which nothing exists and every read fails, and one that has the
  single file \<^verbatim>\<open>b.py\<close>, knows no user \<^verbatim>\<open>nobody\<close> and refuses names of more than 255
  characters.
\<close>

definition no_files :: filesystem where
  "no_files = \<lparr>expand = (\<lambda>p. Inr p), path_exists = (\<lambda>p. Inr False),
     readlines = (\<lambda>p. Inl OSError)\<rparr>"

definition one_file :: filesystem where
  "one_file = \<lparr>expand = (\<lambda>p. if p = ''~nobody'' then Inl RuntimeError else Inr p),
     path_exists = (\<lambda>p. if 255 < length p then Inl OSError else Inr (p = ''b.py'')),
     readlines = (\<lambda>p. if p = ''b.py'' then Inr [''x = 1'' @ [CHR 0x0D, CHR 0x0A], ''y'']
                      else Inl OSError)\<rparr>"

text \<open>
  The bounds a slice stands for once the defaults are filled in: an absent start is \<open>0\<close>, an
  absent stop is the length of the line.
\<close>

definition lower :: "slice \<Rightarrow> int" where
  "lower sl = (case start sl of None \<Rightarrow> 0 | Some a \<Rightarrow> a)"

definition upper :: "slice \<Rightarrow> string \<Rightarrow> int" where
  "upper sl text = (case stop sl of None \<Rightarrow> int (length text) | Some b \<Rightarrow> b)"

text \<open>
  \<open>augmented_of m m'\<close>: \<open>m'\<close> is \<open>m\<close> itself or a wrapper of \<open>m\<close>. Two buckets have the
  same groups when they have the same keys in the same order and, under each key, lists
  whose messages correspond one to one in this way.
\<close>

definition augmented_of :: "msg_obj \<Rightarrow> msg_obj \<Rightarrow> bool" where
  "augmented_of m m' \<longleftrightarrow>
     m' = m \<or> (case m' of NewMessage w n s \<Rightarrow> w = m | Message x \<Rightarrow> False)"

definition same_groups :: "bucket \<Rightarrow> bucket \<Rightarrow> bool" where
  "same_groups b b' \<longleftrightarrow>
     list_all2 (\<lambda>(k, vs) (k', vs'). k = k' \<and> list_all2 augmented_of vs vs') b b'"

definition three_wrapped :: "msg_obj list" where
  "three_wrapped =
     [NewMessage (Message msg_undefined) 1 (Some ''S1''), Message msg_trailing,
      NewMessage (Message (msg_undefined\<lparr>line := 9\<rparr>)) 2 None]"


section \<open>Properties\<close>

lemma messages_of_lookup:
  "messages_of self f = (case messages self f of None \<Rightarrow> [] | Some v \<Rightarrow> v)"
  by (simp add: messages_of_def getitem_def split: option.splits)

subsection \<open>Nothing to augment\<close>

text \<open>
  Claim C8. When the list of the current file is empty, or the rule identifier of its last
  message is not the one of the message definition supplied, \<^verbatim>\<open>handle_node\<close> leaves the
  list of every file as it was, in length and in contents. The state it returns is the
  state it was given, but for the entry with an empty list that reading the
  \<^verbatim>\<open>defaultdict\<close> stores for a current file that had no entry; such a file read as the
  empty list before, and does after.
\<close>

theorem handle_node_nothing_to_augment:
  assumes "messages_of self (current_file self) = []
     \<or> msg_id (getattr_message (last (messages_of self (current_file self))))
         \<noteq> msgid msg_definition"
  shows "(\<forall>f. messages_of (handle_node adder render self msg_definition n) f
              = messages_of self f)
     \<and> handle_node adder render self msg_definition n
         = self\<lparr>messages := snd (getitem (messages self) (current_file self))\<rparr>"
  using assms
  by (auto simp: handle_node_def messages_of_def getitem_def split: option.splits)

theorem handle_node_nothing_to_augment_witness:
  "(\<forall>f. messages_of (handle_node (add_line colourify) node_line (init (Count 0))
            \<lparr>msgid = ''E0602''\<rparr> 5) f = [])
   \<and> (\<forall>f. messages_of (handle_node (add_line colourify) node_line
            (handle_message (init (Count 0)) (Message msg_trailing)) \<lparr>msgid = ''E0602''\<rparr> 5) f
        = messages_of (handle_message (init (Count 0)) (Message msg_trailing)) f)
   \<and> messages_of (handle_message (init (Count 0)) (Message msg_trailing)) []
        = [Message msg_trailing]"
  using handle_node_nothing_to_augment
      [of "init (Count 0)" "\<lparr>msgid = ''E0602''\<rparr>" "add_line colourify" node_line 5]
    handle_node_nothing_to_augment
      [of "handle_message (init (Count 0)) (Message msg_trailing)" "\<lparr>msgid = ''E0602''\<rparr>"
          "add_line colourify" node_line 5]
  by (simp add: messages_of_lookup init_def handle_message_def getitem_def msg_trailing_def)

subsection \<open>Rules without a snippet\<close>

text \<open>
  Claim C5. When \<^verbatim>\<open>handle_node\<close> wraps the last message of the current file (the list is not
  empty and the rule identifier matches) and the symbol of that message is in
  \<open>NO_SNIPPET\<close>, or its text starts with \<^verbatim>\<open>Invalid module\<close>, the snippet of the wrapper is
  the empty string, whatever the renderer would have produced.
\<close>

theorem handle_node_no_snippet:
  assumes "messages_of self (current_file self) \<noteq> []"
    and "msg_id (getattr_message (last (messages_of self (current_file self))))
         = msgid msg_definition"
    and "symbol (getattr_message (last (messages_of self (current_file self)))) \<in> NO_SNIPPET
       \<or> prefix ''Invalid module''
            (msg (getattr_message (last (messages_of self (current_file self)))))"
  shows "messages_of (handle_node adder render self msg_definition n) (current_file self)
           = butlast (messages_of self (current_file self))
             @ [NewMessage (last (messages_of self (current_file self))) n (Some [])]
     \<and> getattr_snippet
           (last (messages_of (handle_node adder render self msg_definition n)
                    (current_file self)))
         = Inr (Some [])"
  using assms
  by (auto simp: handle_node_def messages_of_def getitem_def Suc_le_eq split: option.splits)

theorem handle_node_no_snippet_witness:
  "messages_of (handle_node (add_line colourify) node_line
       (handle_message (init (Count 0)) (Message msg_invalid_name)) \<lparr>msgid = ''C0103''\<rparr> 5) []
     = [NewMessage (Message msg_invalid_name) 5 (Some [])]
   \<and> messages_of (handle_node (add_line colourify) node_line
       (handle_message (init (Count 0)) (Message msg_invalid_module)) \<lparr>msgid = ''F0010''\<rparr> 5) []
     = [NewMessage (Message msg_invalid_module) 5 (Some [])]
   \<and> node_line (Message msg_invalid_name) 5 [] \<noteq> []"
  using handle_node_no_snippet
      [of "handle_message (init (Count 0)) (Message msg_invalid_name)" "\<lparr>msgid = ''C0103''\<rparr>"
          "add_line colourify" node_line 5]
    handle_node_no_snippet
      [of "handle_message (init (Count 0)) (Message msg_invalid_module)" "\<lparr>msgid = ''F0010''\<rparr>"
          "add_line colourify" node_line 5]
  by (simp add: messages_of_lookup init_def handle_message_def getitem_def msg_invalid_name_def
      msg_invalid_module_def NO_SNIPPET_def node_line_def)

subsection \<open>What \<^verbatim>\<open>handle_node\<close> does to the message lists\<close>

lemma handle_node_current:
  "messages_of (handle_node adder render self d n) (current_file self) =
     (if messages_of self (current_file self) \<noteq> []
         \<and> msg_id (getattr_message (last (messages_of self (current_file self)))) = msgid d
      then butlast (messages_of self (current_file self))
           @ [NewMessage (last (messages_of self (current_file self))) n
                (Some (attached_snippet adder render self (last (messages_of self (current_file self))) n))]
      else messages_of self (current_file self))"
  by (auto simp: handle_node_def messages_of_def getitem_def Suc_le_eq attached_snippet_def
      Let_def split: option.splits)

lemma handle_node_other:
  "f \<noteq> current_file self \<Longrightarrow> messages_of (handle_node adder render self d n) f = messages_of self f"
  by (auto simp: handle_node_def messages_of_def getitem_def Let_def split: option.splits)

lemma handle_node_frame:
  "current_file (handle_node adder render self d n) = current_file self"
  "source_lines (handle_node adder render self d n) = source_lines self"
  by (auto simp: handle_node_def getitem_def Let_def split: option.splits prod.splits)

lemma build_snippet_frame:
  "source_lines s' = source_lines s \<Longrightarrow> build_snippet a r s' m n = build_snippet a r s m n"
  by (simp add: build_snippet_def)

lemma str_nat_digit: "n < 10 \<Longrightarrow> str_nat n = [digit n]"
  by (simp add: str_nat.simps)

lemma node_line_snippet:
  "n < 10 \<Longrightarrow> build_snippet (add_line colourify) node_line self m n = ''       '' @ [digit n] @ BREAK"
  by (simp add: build_snippet_def node_line_def add_line_def add_line_number_def times_def
      PRE_LINE_NUM_SPACES_def NUM_LENGTH_SPACES_def AFTER_NUM_SPACES_def SPACE_def colourify_def
      str_nat_digit numeral_2_eq_2 numeral_3_eq_3)

text \<open>
  Claim C1, as amended. \<^verbatim>\<open>handle_node\<close> never changes the length of the list of any file,
  leaves the lists of all files but the current one alone, and in the current file's list
  can only replace the last message. It does so exactly when the list is not empty and the
  rule identifier of the last message is the one supplied: the last message, wrapped
  before or not, is then wrapped with the node supplied and a snippet rendered from it
  (the empty one for a rule without snippets). A second call in a row for the same rule
  therefore wraps the wrapper: the list keeps its length and the original message its
  fields, the node is the one of the second call, and the snippet is rendered afresh, not
  appended to the first.
\<close>

theorem handle_node_rewraps:
  "(\<forall>f. length (messages_of (handle_node adder render self d n1) f)
          = length (messages_of self f))
   \<and> (\<forall>f. f \<noteq> current_file self \<longrightarrow>
          messages_of (handle_node adder render self d n1) f = messages_of self f)
   \<and> butlast (messages_of (handle_node adder render self d n1) (current_file self))
        = butlast (messages_of self (current_file self))
   \<and> (messages_of self (current_file self) = []
        \<or> msg_id (getattr_message (last (messages_of self (current_file self)))) \<noteq> msgid d
      \<longrightarrow> messages_of (handle_node adder render self d n1) (current_file self)
            = messages_of self (current_file self))
   \<and> (messages_of self (current_file self) \<noteq> []
        \<and> msg_id (getattr_message (last (messages_of self (current_file self)))) = msgid d
      \<longrightarrow> (let m = last (messages_of self (current_file self));
               w = NewMessage m n1 (Some (attached_snippet adder render self m n1))
           in messages_of (handle_node adder render self d n1) (current_file self)
                = butlast (messages_of self (current_file self)) @ [w]
            \<and> messages_of (handle_node adder render (handle_node adder render self d n1) d n2)
                  (current_file self)
                = butlast (messages_of self (current_file self))
                  @ [NewMessage w n2 (Some (attached_snippet adder render self w n2))]))"
proof -
  let ?s1 = "handle_node adder render self d n1"
  let ?cur = "current_file self"
  let ?old = "messages_of self ?cur"
  have len: "length (messages_of ?s1 f) = length (messages_of self f)" for f
    by (cases "f = ?cur") (auto simp: handle_node_current handle_node_other)
  have other: "f \<noteq> ?cur \<longrightarrow> messages_of ?s1 f = messages_of self f" for f
    by (simp add: handle_node_other)
  have bl: "butlast (messages_of ?s1 ?cur) = butlast ?old"
    by (simp add: handle_node_current)
  have same: "?old = [] \<or> msg_id (getattr_message (last ?old)) \<noteq> msgid d
      \<longrightarrow> messages_of ?s1 ?cur = ?old"
    by (auto simp: handle_node_current)
  have att: "attached_snippet adder render ?s1 m n = attached_snippet adder render self m n"
    for m n
    by (simp add: attached_snippet_def build_snippet_frame [OF handle_node_frame(2)])
  have twice: "?old \<noteq> [] \<and> msg_id (getattr_message (last ?old)) = msgid d
      \<longrightarrow> (let m = last ?old;
               w = NewMessage m n1 (Some (attached_snippet adder render self m n1))
           in messages_of ?s1 ?cur = butlast ?old @ [w]
            \<and> messages_of (handle_node adder render ?s1 d n2) ?cur
                = butlast ?old @ [NewMessage w n2 (Some (attached_snippet adder render self w n2))])"
  proof
    assume a: "?old \<noteq> [] \<and> msg_id (getattr_message (last ?old)) = msgid d"
    let ?w = "NewMessage (last ?old) n1 (Some (attached_snippet adder render self (last ?old) n1))"
    have c1: "current_file ?s1 = ?cur" by (simp add: handle_node_frame)
    from a have m1: "messages_of ?s1 ?cur = butlast ?old @ [?w]"
      by (simp add: handle_node_current)
    have "messages_of (handle_node adder render ?s1 d n2) ?cur
        = butlast ?old @ [NewMessage ?w n2 (Some (attached_snippet adder render self ?w n2))]"
      using a handle_node_current [of adder render ?s1 d n2] unfolding c1 m1 att by simp
    with m1 show "let m = last ?old;
               w = NewMessage m n1 (Some (attached_snippet adder render self m n1))
           in messages_of ?s1 ?cur = butlast ?old @ [w]
            \<and> messages_of (handle_node adder render ?s1 d n2) ?cur
                = butlast ?old @ [NewMessage w n2 (Some (attached_snippet adder render self w n2))]"
      by (simp add: c1 Let_def)
  qed
  from len other bl same twice show ?thesis by blast
qed

theorem handle_node_rewraps_witness:
  "messages_of (handle_node (add_line colourify) node_line one_undefined d_undefined 1) []
     = [NewMessage (Message msg_undefined) 1 (Some (''       1'' @ BREAK))]
   \<and> messages_of (handle_node (add_line colourify) node_line
        (handle_node (add_line colourify) node_line one_undefined d_undefined 1) d_undefined 2) []
     = [NewMessage (NewMessage (Message msg_undefined) 1 (Some (''       1'' @ BREAK))) 2
          (Some (''       2'' @ BREAK))]"
  using handle_node_rewraps [of "add_line colourify" node_line one_undefined d_undefined 1 2]
  by (simp add: messages_of_lookup one_undefined_def d_undefined_def handle_message_def init_def
      getitem_def msg_undefined_def attached_snippet_def NO_SNIPPET_def node_line_snippet
      digit_def Let_def)

text \<open>
  The claim as written says that a message wrapped already is left alone. With one message
  in the list, a second call replaces the node \<open>1\<close> of the first call by its own node \<open>2\<close>,
  and even with the same node twice the list differs, holding a wrapper of a wrapper.
\<close>

theorem handle_node_twice_counterexample:
  "messages_of (handle_node (add_line colourify) node_line
      (handle_node (add_line colourify) node_line one_undefined d_undefined 1) d_undefined 2) []
     \<noteq> messages_of (handle_node (add_line colourify) node_line one_undefined d_undefined 1) []
   \<and> getattr_node (last (messages_of
        (handle_node (add_line colourify) node_line one_undefined d_undefined 1) [])) = Inr 1
   \<and> getattr_node (last (messages_of (handle_node (add_line colourify) node_line
        (handle_node (add_line colourify) node_line one_undefined d_undefined 1) d_undefined 2) []))
       = Inr 2
   \<and> messages_of (handle_node (add_line colourify) node_line
      (handle_node (add_line colourify) node_line one_undefined d_undefined 1) d_undefined 1) []
     \<noteq> messages_of (handle_node (add_line colourify) node_line one_undefined d_undefined 1) []"
  by (simp add: messages_of_lookup handle_node_def getitem_def one_undefined_def d_undefined_def
      handle_message_def init_def msg_undefined_def NO_SNIPPET_def Let_def)

subsection \<open>Grouping is a partition\<close>

lemma dd_append_keys:
  "map fst (dd_append d k v) = (if k \<in> fst ` set d then map fst d else map fst d @ [k])"
  by (induction d k v rule: dd_append.induct) (auto simp: image_iff)

lemma dd_append_distinct:
  "distinct (map fst d) \<Longrightarrow> distinct (map fst (dd_append d k v))"
  by (simp add: dd_append_keys)

lemma group_of_dd_append:
  "group_of (dd_append d k v) k' = (if k' = k then group_of d k @ [v] else group_of d k')"
  by (induction d k v rule: dd_append.induct) (auto simp: group_of_def)

lemma mset_dd_append:
  "mset (concat (map snd (dd_append d k v))) = mset (concat (map snd d)) + {#v#}"
  by (induction d k v rule: dd_append.induct) auto

lemma set_dd_append:
  "(k', vs) \<in> set (dd_append d k v) \<Longrightarrow>
     (k', vs) \<in> set d \<or> (k' = k \<and> (\<exists>us. vs = us @ [v] \<and> (us = [] \<or> (k, us) \<in> set d)))"
  by (induction d k v rule: dd_append.induct) (auto split: if_splits)

lemma bucket_ok_dd_append:
  "bucket_ok P d \<Longrightarrow> P m \<Longrightarrow> bucket_ok P (dd_append d (msg_id (getattr_message m)) m)"
  unfolding bucket_ok_def
  by (fastforce simp: dd_append_distinct dest!: set_dd_append)

lemma group_loop_ok:
  "bucket_ok is_error_check e \<Longrightarrow> bucket_ok (\<lambda>m. \<not> is_error_check m) s \<Longrightarrow>
   bucket_ok is_error_check (fst (group_loop ms e s))
   \<and> bucket_ok (\<lambda>m. \<not> is_error_check m) (snd (group_loop ms e s))"
proof (induction ms arbitrary: e s)
  case Nil
  then show ?case by simp
next
  case (Cons m ms)
  show ?case
  proof (cases "is_error_check m")
    case True
    with Cons.prems have "bucket_ok is_error_check (dd_append e (msg_id (getattr_message m)) m)"
      by (simp add: bucket_ok_dd_append)
    with Cons.IH [OF this Cons.prems(2)] True show ?thesis
      by (simp add: is_error_check_def)
  next
    case False
    with Cons.prems
    have "bucket_ok (\<lambda>m. \<not> is_error_check m) (dd_append s (msg_id (getattr_message m)) m)"
      by (simp add: bucket_ok_dd_append)
    with Cons.IH [OF Cons.prems(1) this] False show ?thesis
      by (simp add: is_error_check_def)
  qed
qed

lemma group_loop_groups:
  "group_of (fst (group_loop ms e s)) k
     = group_of e k @ filter (\<lambda>m. is_error_check m \<and> msg_id (getattr_message m) = k) ms
   \<and> group_of (snd (group_loop ms e s)) k
     = group_of s k @ filter (\<lambda>m. \<not> is_error_check m \<and> msg_id (getattr_message m) = k) ms"
  by (induction ms arbitrary: e s) (auto simp: group_of_dd_append is_error_check_def)

lemma group_loop_mset:
  "mset (concat (map snd (fst (group_loop ms e s))))
     + mset (concat (map snd (snd (group_loop ms e s))))
   = mset (concat (map snd e)) + mset (concat (map snd s)) + mset ms"
  by (induction ms arbitrary: e s) (auto simp: mset_dd_append)

text \<open>
  Claim C2. \<^verbatim>\<open>group_messages\<close> returns for every list of messages (it has no way to
  raise). The error bucket holds, under each rule identifier, exactly the messages of the
  input with that identifier whose identifier or symbol is in \<open>ERROR_CHECKS\<close>, in the order
  of the input; the style bucket holds the others likewise, so a rule that the set does not
  name lands in the style bucket. No message of one bucket passes the test of the other,
  and the messages of both buckets together are the messages of the input, each as often
  as it occurs there.
\<close>

theorem group_messages_partition:
  "bucket_ok is_error_check (fst (group_messages ms))
   \<and> bucket_ok (\<lambda>m. \<not> is_error_check m) (snd (group_messages ms))
   \<and> (\<forall>k. group_of (fst (group_messages ms)) k
            = filter (\<lambda>m. is_error_check m \<and> msg_id (getattr_message m) = k) ms)
   \<and> (\<forall>k. group_of (snd (group_messages ms)) k
            = filter (\<lambda>m. \<not> is_error_check m \<and> msg_id (getattr_message m) = k) ms)
   \<and> mset (concat (map snd (fst (group_messages ms))))
       + mset (concat (map snd (snd (group_messages ms)))) = mset ms"
  using group_loop_ok [of "[]" "[]" ms] group_loop_groups [of ms "[]" "[]"]
    group_loop_mset [of ms "[]" "[]"]
  by (simp add: group_messages_def bucket_ok_def group_of_def)

theorem group_messages_partition_witness:
  "group_of (fst (group_messages three_messages)) ''E0602''
     = [Message msg_undefined, Message (msg_undefined\<lparr>line := 9\<rparr>)]
   \<and> group_of (snd (group_messages three_messages)) ''E0602'' = []
   \<and> group_of (fst (group_messages three_messages)) ''C0303'' = []
   \<and> group_of (snd (group_messages three_messages)) ''C0303'' = [Message msg_trailing]"
  using group_messages_partition [of three_messages]
  by (simp add: three_messages_def is_error_check_def ERROR_CHECKS_def msg_undefined_def
      msg_trailing_def)

subsection \<open>Truncating the occurrences of a rule\<close>

lemma occurrences_loop_all:
  assumes "\<forall>m \<in> set ms. has_snippet m"
    and "mx = Count 0 \<or> mx = Infinity \<or> (\<exists>c. mx = Count c \<and> c < int i)"
  shows "occurrences_loop mx i ms result = Inr (result @ concat (map occurrence_text ms))"
  using assms
proof (induction ms arbitrary: i result)
  case Nil
  then show ?case by simp
next
  case (Cons m ms)
  from Cons.prems(1) obtain s where s: "getattr_snippet m = Inr (Some s)"
    by (auto simp: has_snippet_def split: sum.splits option.splits)
  from Cons.prems(2) have stop: "(mx \<noteq> Count 0 \<and> Count (int i) = mx) = False" by auto
  from Cons.prems(2) have nxt: "mx = Count 0 \<or> mx = Infinity \<or> (\<exists>c. mx = Count c \<and> c < int (Suc i))"
    by auto
  from Cons.prems(1) have rest: "\<forall>m \<in> set ms. has_snippet m" by simp
  have step: "occurrences_loop mx i (m # ms) result
      = occurrences_loop mx (Suc i) ms (result @ occurrence_text m)"
    using Cons.prems(2) s by (auto simp: occurrence_text_def Let_def)
  show ?case
    unfolding step Cons.IH [OF rest nxt] by simp
qed

lemma occurrences_loop_first:
  assumes "\<forall>m \<in> set ms. has_snippet m" and "c \<noteq> 0" and "int i \<le> c"
  shows "occurrences_loop (Count c) i ms result
           = Inr (result @ concat (map occurrence_text (take (nat c - i) ms)))"
  using assms
proof (induction ms arbitrary: i result)
  case Nil
  then show ?case by simp
next
  case (Cons m ms)
  from Cons.prems(1) obtain s where s: "getattr_snippet m = Inr (Some s)"
    by (auto simp: has_snippet_def split: sum.splits option.splits)
  from Cons.prems(1) have rest: "\<forall>m \<in> set ms. has_snippet m" by simp
  show ?case
  proof (cases "int i = c")
    case True
    then show ?thesis using Cons.prems(2) by auto
  next
    case False
    with Cons.prems(3) have le: "int (Suc i) \<le> c" by simp
    then have "nat c - i = Suc (nat c - Suc i)" by linarith
    then show ?thesis
      using False s Cons.IH [OF rest Cons.prems(2) le]
      by (simp add: occurrence_text_def Let_def)
  qed
qed


lemma groups_loop_step:
  "ms \<noteq> [] \<Longrightarrow>
   groups_loop mx ((k, ms) # rest) result =
     (case occurrences_loop mx 0 ms
             (result @ group_title k ms
              @ (if mx \<noteq> Count 0 \<and> mx \<noteq> Infinity \<and> count_less mx (int (length ms))
                 then '' (First '' @ str_count mx @ '' shown).'' else [])
              @ BREAK) of
        Inl e \<Rightarrow> Inl e
      | Inr r \<Rightarrow> groups_loop mx rest r)"
  by (cases ms) (simp_all add: group_title_def Let_def del: occurrences_loop.simps)







subsection \<open>The sections of the report\<close>

lemma occurrences_loop_returns:
  assumes "\<forall>m \<in> set ms. has_snippet m"
  shows "\<exists>t. occurrences_loop mx 0 ms result = Inr (result @ t)"
proof (cases mx)
  case (Count c)
  show ?thesis
  proof (cases "c \<le> 0")
    case True
    then have "mx = Count 0 \<or> mx = Infinity \<or> (\<exists>c. mx = Count c \<and> c < int 0)"
      using Count by auto
    from occurrences_loop_all [OF assms this] show ?thesis by blast
  next
    case False
    then have "c \<noteq> 0" "int 0 \<le> c" by auto
    from occurrences_loop_first [OF assms this] show ?thesis unfolding Count by blast
  qed
next
  case Infinity
  then have "mx = Count 0 \<or> mx = Infinity \<or> (\<exists>c. mx = Count c \<and> c < int 0)" by simp
  from occurrences_loop_all [OF assms this] show ?thesis by blast
qed

lemma groups_loop_returns:
  assumes "\<forall>(k, ms) \<in> set b. ms \<noteq> [] \<and> (\<forall>m \<in> set ms. has_snippet m)"
  shows "\<exists>t. groups_loop mx b result = Inr (result @ t) \<and> (t = [] \<longleftrightarrow> b = [])"
  using assms
proof (induction b arbitrary: result)
  case Nil
  then show ?case by simp
next
  case (Cons g b)
  obtain k ms where g: "g = (k, ms)" by (cases g)
  from Cons.prems g have ne: "ms \<noteq> []" and sn: "\<forall>m \<in> set ms. has_snippet m"
    and rest: "\<forall>(k, ms) \<in> set b. ms \<noteq> [] \<and> (\<forall>m \<in> set ms. has_snippet m)"
    by auto
  define u where "u = group_title k ms
     @ (if mx \<noteq> Count 0 \<and> mx \<noteq> Infinity \<and> count_less mx (int (length ms))
        then '' (First '' @ str_count mx @ '' shown).'' else [])
     @ BREAK"
  have u: "u \<noteq> []" by (simp add: u_def BREAK_def)
  from occurrences_loop_returns [OF sn] obtain t where
    t: "occurrences_loop mx 0 ms (result @ u) = Inr ((result @ u) @ t)" by blast
  from Cons.IH [OF rest] obtain t' where
    t': "groups_loop mx b ((result @ u) @ t) = Inr (((result @ u) @ t) @ t')" by blast
  have "groups_loop mx (g # b) result = groups_loop mx b ((result @ u) @ t)"
    unfolding g groups_loop_step [OF ne] u_def [symmetric] t by simp
  with t' u have "groups_loop mx (g # b) result = Inr (result @ (u @ t @ t'))" "u @ t @ t' \<noteq> []"
    by simp_all
  then show ?case by blast
qed

lemma group_loop_members:
  "set (concat (map snd (fst (group_messages ms)))) \<subseteq> set ms"
  "set (concat (map snd (snd (group_messages ms)))) \<subseteq> set ms"
proof -
  have "mset (concat (map snd (fst (group_messages ms))))
      + mset (concat (map snd (snd (group_messages ms)))) = mset ms"
    using group_loop_mset [of ms "[]" "[]"] by (simp add: group_messages_def)
  then have "set_mset (mset (concat (map snd (fst (group_messages ms)))))
      \<union> set_mset (mset (concat (map snd (snd (group_messages ms))))) = set_mset (mset ms)"
    by (metis set_mset_union)
  then show "set (concat (map snd (fst (group_messages ms)))) \<subseteq> set ms"
    "set (concat (map snd (snd (group_messages ms)))) \<subseteq> set ms"
    by auto
qed

lemma group_messages_renderable:
  assumes "\<forall>m \<in> set ms. has_snippet m"
  shows "\<forall>(k, vs) \<in> set (fst (group_messages ms)). vs \<noteq> [] \<and> (\<forall>m \<in> set vs. has_snippet m)"
    and "\<forall>(k, vs) \<in> set (snd (group_messages ms)). vs \<noteq> [] \<and> (\<forall>m \<in> set vs. has_snippet m)"
proof -
  have ok: "bucket_ok is_error_check (fst (group_messages ms))"
    "bucket_ok (\<lambda>m. \<not> is_error_check m) (snd (group_messages ms))"
    using group_loop_ok [of "[]" "[]" ms] by (simp_all add: group_messages_def bucket_ok_def)
  show "\<forall>(k, vs) \<in> set (fst (group_messages ms)). vs \<noteq> [] \<and> (\<forall>m \<in> set vs. has_snippet m)"
    using ok(1) group_loop_members(1) [of ms] assms
    by (fastforce simp: bucket_ok_def)
  show "\<forall>(k, vs) \<in> set (snd (group_messages ms)). vs \<noteq> [] \<and> (\<forall>m \<in> set vs. has_snippet m)"
    using ok(2) group_loop_members(2) [of ms] assms
    by (fastforce simp: bucket_ok_def)
qed

lemma group_messages_Nil: "group_messages [] = ([], [])"
  by (simp add: group_messages_def)

text \<open>
  Claim C7, as amended. When the messages of the current file are wrappers with a snippet,
  \<^verbatim>\<open>print_messages\<close> raises nothing and writes, for every level: the two head lines, then
  the title of the error section and the section, and, exactly when the level is
  \<^verbatim>\<open>all\<close>, the title of the style section and that section. A section is the text
  \<^verbatim>\<open>_colour_messages_by_type\<close> returns for the bucket, which is empty only for an empty
  bucket, and for an empty bucket it is the message that no problems were detected. With no
  message at all for the file, the report has that message in each section printed and no
  rule group.
\<close>

theorem print_messages_sections:
  assumes "\<forall>m \<in> set (messages_of self (current_file self)). has_snippet m"
  shows "\<exists>e s.
       colour_messages_by_type self (fst (group_messages (messages_of self (current_file self))))
         = Inr e
     \<and> colour_messages_by_type self (snd (group_messages (messages_of self (current_file self))))
         = Inr s
     \<and> (e = [] \<longleftrightarrow> fst (group_messages (messages_of self (current_file self))) = [])
     \<and> (s = [] \<longleftrightarrow> snd (group_messages (messages_of self (current_file self))) = [])
     \<and> fst (print_messages now self level) = None
     \<and> out (snd (print_messages now self level))
         = out self @ ''PyTA Report for: '' @ current_file self @ BREAK @ now @ BREAK
           @ code_err_title @ BREAK
           @ (if fst (group_messages (messages_of self (current_file self))) = []
              then no_err_message else e)
           @ (if level = ''all''
              then style_err_title @ BREAK
                   @ (if snd (group_messages (messages_of self (current_file self))) = []
                      then no_err_message else s)
              else [])
           @ BREAK
     \<and> (messages_of self (current_file self) = [] \<longrightarrow>
          out (snd (print_messages now self level))
            = out self @ ''PyTA Report for: '' @ current_file self @ BREAK @ now @ BREAK
              @ code_err_title @ BREAK @ no_err_message
              @ (if level = ''all'' then style_err_title @ BREAK @ no_err_message else [])
              @ BREAK)"
proof -
  define ms where "ms = messages_of self (current_file self)"
  define d where "d = snd (getitem (messages self) (current_file self))"
  define E where "E = fst (group_messages ms)"
  define S where "S = snd (group_messages ms)"
  have g: "getitem (messages self) (current_file self) = (ms, d)"
    by (simp add: ms_def d_def messages_of_def)
  have gm: "group_messages ms = (E, S)"
    by (simp add: E_def S_def)
  have sn: "\<forall>m \<in> set ms. has_snippet m"
    using assms by (simp add: ms_def)
  from groups_loop_returns [OF group_messages_renderable(1) [OF sn],
      of "pyta_number_of_messages self" "[]"]
  obtain e where e: "colour_messages_by_type (self\<lparr>messages := d\<rparr>) E = Inr e"
    "e = [] \<longleftrightarrow> E = []"
    by (auto simp: colour_messages_by_type_def E_def)
  from groups_loop_returns [OF group_messages_renderable(2) [OF sn],
      of "pyta_number_of_messages self" "[]"]
  obtain s where s: "colour_messages_by_type (self\<lparr>messages := d\<rparr>) S = Inr s"
    "s = [] \<longleftrightarrow> S = []"
    by (auto simp: colour_messages_by_type_def S_def)
  have cm: "colour_messages_by_type (self\<lparr>messages := d\<rparr>) b = colour_messages_by_type self b"
    for b
    by (simp add: colour_messages_by_type_def)
  have pm: "print_messages now self level =
      (None, writeln (self\<lparr>messages := d\<rparr>)
         (''PyTA Report for: '' @ current_file self @ BREAK @ now @ BREAK
           @ code_err_title @ BREAK
           @ (if E = [] then no_err_message else e)
           @ (if level = ''all''
              then style_err_title @ BREAK @ (if S = [] then no_err_message else s)
              else [])))"
    unfolding print_messages_def g
    by (simp add: gm e s Let_def colourify_def)
  have empty: "ms = [] \<longrightarrow> E = [] \<and> S = []"
    by (simp add: E_def S_def group_messages_Nil)
  have "colour_messages_by_type self E = Inr e \<and> colour_messages_by_type self S = Inr s
     \<and> (e = [] \<longleftrightarrow> E = []) \<and> (s = [] \<longleftrightarrow> S = [])
     \<and> fst (print_messages now self level) = None
     \<and> out (snd (print_messages now self level))
         = out self @ ''PyTA Report for: '' @ current_file self @ BREAK @ now @ BREAK
           @ code_err_title @ BREAK
           @ (if E = [] then no_err_message else e)
           @ (if level = ''all''
              then style_err_title @ BREAK @ (if S = [] then no_err_message else s)
              else [])
           @ BREAK
     \<and> (ms = [] \<longrightarrow>
          out (snd (print_messages now self level))
            = out self @ ''PyTA Report for: '' @ current_file self @ BREAK @ now @ BREAK
              @ code_err_title @ BREAK @ no_err_message
              @ (if level = ''all'' then style_err_title @ BREAK @ no_err_message else [])
              @ BREAK)"
    using e s empty unfolding pm cm by (simp add: writeln_def)
  then show ?thesis
    unfolding E_def S_def ms_def by blast
qed

theorem print_messages_sections_witness:
  "list_all has_snippet (messages_of two_found (current_file two_found))
   \<and> out (snd (print_messages ''now'' two_found ''all''))
       = ''PyTA Report for: a.py'' @ BREAK @ ''now'' @ BREAK
         @ code_err_title @ BREAK
         @ ''E0602 (undefined-variable)  Number of occurrences: 1.'' @ BREAK
         @ ''  [Line 3] Undefined variable x'' @ BREAK @ ''S1'' @ BREAK
         @ style_err_title @ BREAK
         @ ''C0303 (trailing-whitespace)  Number of occurrences: 1.'' @ BREAK
         @ ''  [Line 7] Trailing whitespace'' @ BREAK @ ''S2'' @ BREAK
         @ BREAK
   \<and> out (snd (print_messages ''now'' two_found ''errors''))
       = ''PyTA Report for: a.py'' @ BREAK @ ''now'' @ BREAK
         @ code_err_title @ BREAK
         @ ''E0602 (undefined-variable)  Number of occurrences: 1.'' @ BREAK
         @ ''  [Line 3] Undefined variable x'' @ BREAK @ ''S1'' @ BREAK
         @ BREAK
   \<and> out (snd (print_messages ''now'' (init (Count 0)) ''errors''))
       = ''PyTA Report for: '' @ BREAK @ ''now'' @ BREAK
         @ code_err_title @ BREAK @ no_err_message @ BREAK"
  using print_messages_sections [of two_found "''now''" "''all''"]
    print_messages_sections [of two_found "''now''" "''errors''"]
    print_messages_sections [of "init (Count 0)" "''now''" "''errors''"]
  by (simp add: two_found_def init_def messages_of_lookup has_snippet_def group_messages_def
      is_error_check_def ERROR_CHECKS_def msg_undefined_def msg_trailing_def
      colour_messages_by_type_def colourify_def times_def SPACE_def BREAK_def str_int_def
      str_nat_digit digit_def first_line_def numeral_2_eq_2 Let_def)

text \<open>
  The claim as written is about the messages of every file. After \<^verbatim>\<open>handle_message\<close> alone
  the message of the file is a pylint message without a \<^verbatim>\<open>snippet\<close>: \<^verbatim>\<open>print_messages\<close>
  raises when it reaches it and writes nothing, no section and no title.
\<close>

theorem print_messages_unwrapped_counterexample:
  "fst (print_messages ''now'' (handle_message (init (Count 0)) (Message msg_undefined)) ''all'')
     = Some AttributeError
   \<and> out (snd (print_messages ''now'' (handle_message (init (Count 0)) (Message msg_undefined))
         ''all'')) = []"
  by (simp add: print_messages_def handle_message_def init_def getitem_def group_messages_def
      ERROR_CHECKS_def msg_undefined_def colour_messages_by_type_def Let_def)

subsection \<open>Switching files\<close>

text \<open>
  Claim C4, as amended. When expanding the module name or asking whether the expanded path
  exists raises, the error is raised to the caller and the state is unchanged. When they
  succeed, no path is given and the module does not name an existing path,
  \<^verbatim>\<open>on_set_current_module\<close> returns the state unchanged and raises nothing. Otherwise the
  module name and the current file are switched to the new file and every file's list of
  messages reads as before, so no recorded message is lost; then, when the file cannot be
  opened or decoded, the error is raised to the caller and the source lines are still those
  of the file before, and when it can be read the source lines are its lines without their
  line ends.
\<close>

theorem on_set_current_module_outcomes:
  "(expand fs module = Inl e \<longrightarrow>
        on_set_current_module fs self module filepath = (Some e, self))
   \<and> (expand fs module = Inr p \<and> path_exists fs p = Inl e \<longrightarrow>
        on_set_current_module fs self module filepath = (Some e, self))
   \<and> (expand fs module = Inr p \<and> path_exists fs p = Inr False \<and> filepath = None \<longrightarrow>
        on_set_current_module fs self module filepath = (None, self))
   \<and> (expand fs module = Inr p \<and> path_exists fs p = Inr found
          \<and> (filepath = Some fp \<or> filepath = None \<and> found \<and> fp = p) \<longrightarrow>
        current_file (snd (on_set_current_module fs self module filepath)) = fp
      \<and> module_name (snd (on_set_current_module fs self module filepath)) = module
      \<and> (\<forall>f. messages_of (snd (on_set_current_module fs self module filepath)) f
               = messages_of self f)
      \<and> (readlines fs fp = Inl e \<longrightarrow>
             fst (on_set_current_module fs self module filepath) = Some e
           \<and> source_lines (snd (on_set_current_module fs self module filepath))
               = source_lines self)
      \<and> (readlines fs fp = Inr lines \<longrightarrow>
             fst (on_set_current_module fs self module filepath) = None
           \<and> source_lines (snd (on_set_current_module fs self module filepath))
               = map rstrip_crlf lines))"
  by (auto simp: on_set_current_module_def Let_def messages_of_lookup
      split: option.splits sum.splits)

theorem on_set_current_module_outcomes_witness:
  "on_set_current_module no_files two_found ''conf'' None = (None, two_found)
   \<and> on_set_current_module one_file two_found ''~nobody'' (Some ''b.py'')
       = (Some RuntimeError, two_found)
   \<and> on_set_current_module one_file two_found (replicate 300 CHR ''a'') (Some ''b.py'')
       = (Some OSError, two_found)
   \<and> fst (on_set_current_module no_files two_found ''b'' (Some ''b.py'')) = Some OSError
   \<and> source_lines (snd (on_set_current_module no_files two_found ''b'' (Some ''b.py'')))
       = source_lines two_found
   \<and> messages_of (snd (on_set_current_module no_files two_found ''b'' (Some ''b.py''))) ''a.py''
       = messages_of two_found ''a.py''
   \<and> source_lines (snd (on_set_current_module one_file two_found ''b.py'' None))
       = [''x = 1'', ''y'']"
proof -
  have long: "replicate 300 CHR ''a'' \<noteq> ''~nobody''"
    by (auto dest: arg_cong [where f = length])
  show ?thesis
    using on_set_current_module_outcomes
        [of no_files "''conf''" e two_found None "''conf''" False]
      on_set_current_module_outcomes
        [of one_file "''~nobody''" RuntimeError two_found "Some ''b.py''"]
      on_set_current_module_outcomes
        [of one_file "replicate 300 CHR ''a''" OSError two_found "Some ''b.py''"
            "replicate 300 CHR ''a''"]
      on_set_current_module_outcomes
        [of no_files "''b''" OSError two_found "Some ''b.py''" "''b''" False "''b.py''"]
      on_set_current_module_outcomes
        [of one_file "''b.py''" e two_found None "''b.py''" True "''b.py''"
            "[''x = 1'' @ [CHR 0x0D, CHR 0x0A], ''y'']"]
    by (simp add: no_files_def one_file_def rstrip_crlf_def long)
qed

text \<open>
  The claim as written says an unreadable file is skipped without raising. Nothing in
  \<^verbatim>\<open>on_set_current_module\<close> catches the error of \<^verbatim>\<open>open\<close>: with a file that cannot be
  read the call raises, and the current file has been switched by then.
\<close>

theorem on_set_current_module_raises_counterexample:
  "fst (on_set_current_module no_files two_found ''b'' (Some ''b.py'')) = Some OSError
   \<and> current_file two_found = ''a.py''
   \<and> current_file (snd (on_set_current_module no_files two_found ''b'' (Some ''b.py''))) = ''b.py''"
  by (simp add: on_set_current_module_def no_files_def two_found_def Let_def)

subsection \<open>The slice of an ERROR line\<close>

lemma slice_index_zero: "slice_index n 0 = 0"
  by (simp add: slice_index_def)

lemma slice_index_beyond: "int n \<le> e \<Longrightarrow> slice_index n e = n"
  by (auto simp: slice_index_def)

lemma or_else_beyond: "int n \<le> e \<Longrightarrow> int n \<le> or_else (Some e) (int n)"
  by (simp add: or_else_def)

lemma getslice_start_absent: "getslice text None e = getslice text (Some 0) e"
  by (simp add: getslice_def slice_index_zero)

lemma getslice_stop_beyond:
  "int (length text) \<le> e \<Longrightarrow> getslice text s (Some e) = getslice text s None"
  by (simp add: getslice_def slice_index_beyond)

lemma getslice_from_beyond:
  "int (length text) \<le> e \<Longrightarrow> getslice text (Some e) None = []"
  by (simp add: getslice_def slice_index_beyond)

lemma add_line_stop_beyond:
  assumes "int (length text) \<le> e"
  shows "add_line colour lineno ERROR (Slice s (Some e)) text
       = add_line colour lineno ERROR (Slice s None) text"
proof -
  have "getslice text (Some (or_else (Some e) (int (length text)))) None = []"
    using assms by (intro getslice_from_beyond or_else_beyond)
  moreover have "getslice text (Some (or_else None (int (length text)))) None = []"
    by (simp add: or_else_def getslice_from_beyond)
  ultimately show ?thesis
    using assms by (simp add: add_line_def Let_def getslice_stop_beyond)
qed

lemma add_line_start_absent:
  "add_line colour lineno ERROR (Slice None e) text
     = add_line colour lineno ERROR (Slice (Some 0) e) text"
  by (simp add: add_line_def Let_def or_else_def getslice_start_absent)

lemma add_line_stop_absent:
  "add_line colour lineno ERROR (Slice s None) text
     = add_line colour lineno ERROR (Slice s (Some (int (length text)))) text"
  using add_line_stop_beyond [of "text" "int (length text)" colour lineno s] by simp

lemma extended_slice_examples:
  "extended_slice ''0123456789'' (Some 1) (Some 8) 3 = ''147''"
  "extended_slice ''0123456789'' None None (- 1) = ''9876543210''"
  "extended_slice ''0123456789'' (Some (- 2)) (Some 2) (- 3) = ''85''"
  "extended_slice ''0123456789'' (Some 20) (Some (- 20)) (- 4) = ''951''"
  by (simp_all add: extended_slice_def Let_def upt_conv_Cons)

lemma take_drop_nth:
  "lo + k \<le> length xs \<Longrightarrow> take k (drop lo xs) = map (\<lambda>j. xs ! (lo + j)) [0..<k]"
  by (rule nth_equalityI) auto

lemma extended_slice_step_one: "extended_slice xs a b 1 = getslice xs a b"
proof -
  let ?n = "length xs"
  have cl: "(if i < 0 then max (i + int ?n) 0 else min i (int ?n)) = int (slice_index ?n i)" for i
    by (auto simp: slice_index_def)
  define lo where "lo = (case a of None \<Rightarrow> 0 | Some i \<Rightarrow> slice_index ?n i)"
  define hi where "hi = (case b of None \<Rightarrow> ?n | Some j \<Rightarrow> slice_index ?n j)"
  have hi: "hi \<le> ?n" by (auto simp: hi_def slice_index_def split: option.splits)
  have s: "(case a of None \<Rightarrow> 0 | Some i \<Rightarrow> if i < 0 then max (i + int ?n) 0 else min i (int ?n)) = int lo"
    by (simp add: lo_def cl split: option.splits)
  have e: "(case b of None \<Rightarrow> int ?n | Some j \<Rightarrow> if j < 0 then max (j + int ?n) 0 else min j (int ?n)) = int hi"
    by (simp add: hi_def cl split: option.splits)
  have d: "nat (int hi - int lo) = hi - lo" by simp
  have "extended_slice xs a b 1 = map (\<lambda>j. xs ! (lo + j)) [0..<hi - lo]"
    unfolding extended_slice_def Let_def
    by (simp add: s e d nat_add_distrib)
  also have "\<dots> = take (hi - lo) (drop lo xs)"
  proof (cases "lo \<le> hi")
    case True
    with hi show ?thesis by (simp add: take_drop_nth)
  next
    case False
    then show ?thesis by simp
  qed
  finally show ?thesis by (simp add: getslice_def lo_def hi_def Let_def)
qed

lemma add_line_py_no_step:
  "add_line_py colour lineno linetype (SliceObject sl None) text
     = Inr (add_line colour lineno linetype sl text)"
  by (simp add: add_line_py_def add_line_def getitem_slice_def Let_def)








subsection \<open>The text of an ERROR line\<close>

text \<open>
  With the colouring of the base reporter, an ERROR line is the line number, the text of
  the line, and a line break, for every slice with \<open>0 \<le> start \<le> end \<le> length\<close> (absent
  bounds at their defaults) but one kind: an end given as \<open>0\<close> on a line that is not empty.
\<close>

lemma getslice_split:
  assumes "0 \<le> a" "a \<le> b" "b \<le> int (length text)"
  shows "getslice text None (Some a) @ getslice text (Some a) (Some b) @ getslice text (Some b) None
     = text"
proof -
  have 1: "slice_index (length text) a = nat a" "slice_index (length text) b = nat b"
    using assms by (auto simp: slice_index_def)
  have "take (nat a) text @ take (nat b - nat a) (drop (nat a) text) @ drop (nat b) text = text"
    using assms
    by (metis add_diff_inverse_nat append_take_drop_id drop_drop nat_mono not_less add.commute)
  then show ?thesis
    by (simp add: getslice_def 1 slice_index_zero Let_def)
qed

lemma add_line_error_keeps_text:
  assumes "0 \<le> a" "a \<le> b" "b \<le> int (length text)" "b \<noteq> 0"
  shows "add_line colourify lineno ERROR (Slice (Some a) (Some b)) text
       = add_line_number colourify lineno ERROR @ text @ BREAK"
proof -
  have oa: "getslice text None (Some (or_else (Some a) 0)) = getslice text None (Some a)"
    by (simp add: or_else_def)
  have ob: "or_else (Some b) (int (length text)) = b"
    using assms(4) by (simp add: or_else_def)
  show ?thesis
    using getslice_split [OF assms(1-3)]
    by (auto simp: add_line_def Let_def oa ob colourify_def)
qed

lemma add_line_error_empty:
  "add_line colourify lineno ERROR sl [] = add_line_number colourify lineno ERROR @ BREAK"
  by (simp add: add_line_def Let_def getslice_def colourify_def)

lemma add_line_error_in_range:
  assumes "0 \<le> lower sl" "lower sl \<le> upper sl text" "upper sl text \<le> int (length text)"
    and "stop sl \<noteq> Some 0 \<or> text = []"
  shows "add_line colourify lineno ERROR sl text
       = add_line_number colourify lineno ERROR @ text @ BREAK"
proof (cases "text = []")
  case True
  then show ?thesis by (simp add: add_line_error_empty)
next
  case False
  then have len: "int (length text) \<noteq> 0" by simp
  from False assms(4) have nz: "upper sl text \<noteq> 0"
    by (auto simp: upper_def split: option.splits)
  have "add_line colourify lineno ERROR sl text
      = add_line colourify lineno ERROR (Slice (Some (lower sl)) (Some (upper sl text))) text"
    by (cases sl)
       (auto simp: lower_def upper_def add_line_start_absent add_line_stop_absent
          split: option.splits)
  with add_line_error_keeps_text [OF assms(1-3) nz] show ?thesis by simp
qed

text \<open>
  Claim C9 says that the body of an ERROR line is the text of the line for every slice
  within the bounds. The slice \<^verbatim>\<open>slice(0, 0)\<close> is within the bounds of the line
  \<^verbatim>\<open>abc\<close>, and for it the line printed has the line number and the line break only: the
  end \<open>0\<close> is taken for an absent one by \<^verbatim>\<open>slice_.stop or len(text)\<close>, so the text after the
  span is \<^verbatim>\<open>text[3:]\<close>, while the span itself is \<^verbatim>\<open>text[0:0]\<close>, and the text of the line is
  lost.
\<close>

theorem add_line_error_zero_stop:
  "add_line colourify (Some 1) ERROR (Slice (Some 0) (Some 0)) ''abc'' = ''    1  '' @ BREAK
   \<and> add_line colourify (Some 1) ERROR (Slice (Some 0) (Some 0)) ''abc''
       \<noteq> add_line_number colourify (Some 1) ERROR @ ''abc'' @ BREAK"
  by (simp add: add_line_def add_line_number_def or_else_def getslice_def slice_index_def
      colourify_def times_def PRE_LINE_NUM_SPACES_def AFTER_NUM_SPACES_def SPACE_def rjust3_def
      str_int_def str_nat_digit digit_def numeral_2_eq_2 Let_def BREAK_def)

subsection \<open>Wrapping keeps the fields of a message\<close>

lemma augmented_of_fields:
  "augmented_of m m' \<Longrightarrow> getattr_message m' = getattr_message m"
  by (auto simp: augmented_of_def split: msg_obj.splits)

lemma same_groups_dd_append:
  "same_groups d d' \<Longrightarrow> augmented_of m m' \<Longrightarrow>
   same_groups (dd_append d k m) (dd_append d' k m')"
  unfolding same_groups_def
proof (induction d d' rule: list_all2_induct)
  case Nil
  then show ?case by simp
next
  case (Cons x xs y ys)
  then show ?case
    by (cases x; cases y) (auto simp: list_all2_appendI)
qed

lemma same_groups_group_loop:
  "list_all2 augmented_of ms ms' \<Longrightarrow> same_groups e e' \<Longrightarrow> same_groups s s' \<Longrightarrow>
   same_groups (fst (group_loop ms e s)) (fst (group_loop ms' e' s'))
   \<and> same_groups (snd (group_loop ms e s)) (snd (group_loop ms' e' s'))"
proof (induction ms ms' arbitrary: e e' s s' rule: list_all2_induct)
  case Nil
  then show ?case by simp
next
  case (Cons m ms m' ms')
  from Cons.hyps(1) have f: "getattr_message m' = getattr_message m"
    by (rule augmented_of_fields)
  show ?case
  proof (cases "msg_id (getattr_message m) \<in> ERROR_CHECKS \<or> symbol (getattr_message m) \<in> ERROR_CHECKS")
    case True
    have "same_groups (dd_append e (msg_id (getattr_message m)) m)
            (dd_append e' (msg_id (getattr_message m)) m')"
      using Cons.prems(1) Cons.hyps(1) by (rule same_groups_dd_append)
    from Cons.IH [OF this Cons.prems(2)] True show ?thesis by (simp add: f)
  next
    case False
    have "same_groups (dd_append s (msg_id (getattr_message m)) m)
            (dd_append s' (msg_id (getattr_message m)) m')"
      using Cons.prems(2) Cons.hyps(1) by (rule same_groups_dd_append)
    from Cons.IH [OF Cons.prems(1) this] False show ?thesis by (simp add: f)
  qed
qed

lemma to_dict_ends:
  "\<exists>d. to_dict (NewMessage w n s) = Inr d
     \<and> map_of d ''line_end'' = Some (opt_int (end_line (getattr_message w)))
     \<and> map_of d ''column_end'' = Some (opt_int (end_column (getattr_message w)))
     \<and> map_of d ''snippet'' = Some (opt_str s)"
  by (simp add: update_conv')

text \<open>
  Claim C10. An attribute of the original message read through a wrapper is the attribute
  of the original: the lookup ends at the same pylint message, so rule identifier, symbol,
  text, path, line, column, end line and end column agree. Hence the wrapper passes the
  test of the error bucket exactly when the original does, and grouping a list in which
  some messages have been replaced by wrappers of them gives the same keys in the same
  order with the corresponding messages under each key. \<^verbatim>\<open>to_dict\<close> of a wrapper returns a
  dictionary whose \<^verbatim>\<open>line_end\<close> and \<^verbatim>\<open>column_end\<close> are the end line and end column of the
  original.
\<close>

theorem new_message_keeps_fields:
  "getattr_message (NewMessage w n s) = getattr_message w
   \<and> is_error_check (NewMessage w n s) = is_error_check w
   \<and> (list_all2 augmented_of ms ms' \<longrightarrow>
        same_groups (fst (group_messages ms)) (fst (group_messages ms'))
      \<and> same_groups (snd (group_messages ms)) (snd (group_messages ms')))
   \<and> (\<exists>d. to_dict (NewMessage w n s) = Inr d
        \<and> map_of d ''line_end'' = Some (opt_int (end_line (getattr_message w)))
        \<and> map_of d ''column_end'' = Some (opt_int (end_column (getattr_message w))))"
proof -
  have "list_all2 augmented_of ms ms' \<longrightarrow>
        same_groups (fst (group_messages ms)) (fst (group_messages ms'))
      \<and> same_groups (snd (group_messages ms)) (snd (group_messages ms'))"
    using same_groups_group_loop [of ms ms' "[]" "[]" "[]" "[]"]
    by (simp add: group_messages_def same_groups_def)
  moreover have "\<exists>d. to_dict (NewMessage w n s) = Inr d
        \<and> map_of d ''line_end'' = Some (opt_int (end_line (getattr_message w)))
        \<and> map_of d ''column_end'' = Some (opt_int (end_column (getattr_message w)))"
    using to_dict_ends [of w n s] by blast
  ultimately show ?thesis
    by (simp add: is_error_check_def)
qed

theorem new_message_keeps_fields_witness:
  "list_all2 augmented_of three_messages three_wrapped
   \<and> same_groups (fst (group_messages three_messages)) (fst (group_messages three_wrapped))
   \<and> fst (group_messages three_wrapped)
       = [(''E0602'', [NewMessage (Message msg_undefined) 1 (Some ''S1''),
                       NewMessage (Message (msg_undefined\<lparr>line := 9\<rparr>)) 2 None])]
   \<and> fst (group_messages three_messages)
       = [(''E0602'', [Message msg_undefined, Message (msg_undefined\<lparr>line := 9\<rparr>)])]"
  using new_message_keeps_fields [of "Message msg_undefined" 1 "Some ''S1''" three_messages three_wrapped]
  by (simp add: three_messages_def three_wrapped_def augmented_of_def group_messages_def
      ERROR_CHECKS_def msg_undefined_def msg_trailing_def)

end
